theory Spec2Isabelle
  imports Complex_Main "HOL-Library.Sublist"
begin

section \<open>Strings\<close>

text \<open>
  A JavaScript string is a sequence of UTF-16 code units. The model covers the strings
  whose code units are all below 256 (the Latin-1 range, which holds every character of
  the keyword table, of the tracking-code alphabet and of the status and urgency names):
  one \<^typ>\<open>char\<close> per code unit, so \<^const>\<open>length\<close> is the \<^verbatim>\<open>length\<close> of the
  source string.
\<close>

definition lowerChar :: "char \<Rightarrow> char" where
  \<comment> \<open>Unicode lower-casing of one Latin-1 code unit: A..Z and the accented capitals
      U+00C0..U+00DE (the multiplication sign U+00D7 apart) move up by 32.\<close>
  "lowerChar c =
     (let n = (of_char c :: nat)
      in if (65 \<le> n \<and> n \<le> 90) \<or> (192 \<le> n \<and> n \<le> 222 \<and> n \<noteq> 215)
         then char_of (n + 32) else c)"

definition toLowerCase :: "string \<Rightarrow> string" where
  \<comment> \<open>\<^verbatim>\<open>String.prototype.toLowerCase\<close> on the Latin-1 range\<close>
  "toLowerCase s = map lowerChar s"

fun startsWith :: "string \<Rightarrow> string \<Rightarrow> bool" where
  "startsWith s [] = True"
| "startsWith [] (w # ws) = False"
| "startsWith (c # cs) (w # ws) = (c = w \<and> startsWith cs ws)"

fun includes_str :: "string \<Rightarrow> string \<Rightarrow> bool" where
  \<comment> \<open>\<^verbatim>\<open>String.prototype.includes\<close>: the word starts at some position of the string\<close>
  "includes_str [] w = (w = [])"
| "includes_str (c # cs) w = (startsWith (c # cs) w \<or> includes_str cs w)"

section \<open>Crisis detection (crisis-detection.js)\<close>

definition keywords_table :: "(string \<times> string list) list" where
  \<comment> \<open>\<^verbatim>\<open>CrisisDetection.keywords\<close>, in the order \<^verbatim>\<open>Object.entries\<close> lists it\<close>
  "keywords_table =
    [(''suicide'', [''suicidio'', ''suicidarme'', ''quitarme la vida'', ''acabar con todo'',
                    ''no quiero vivir'', ''mejor muerto'', ''matarme'']),
     (''selfHarm'', [''cortarme'', ''hacerme da'' @ [CHR 0xF1] @ ''o'', ''lastimarme'',
                     ''autolesi'' @ [CHR 0xF3] @ ''n'', ''herirme'', ''golpearme'']),
     (''violence'', [''matar'', ''violencia'', ''arma'', ''pistola'', ''cuchillo'', ''atacar'',
                     ''venganza'']),
     (''severe'', [''desesperado'', ''sin salida'', ''no puedo m'' @ [CHR 0xE1] @ ''s'',
                   ''insoportable'', ''horrible'', ''terrible'']),
     (''death'', [''muerte'', ''morir'', ''muerto'', ''funeral'', ''despedida final''])]"

record analysis =
  isCrisis :: bool
  crisisLevel :: string
  severityScore :: int
  detectedKeywords :: "string list"
  categories :: "string list"
  recommendation :: string

text \<open>
  The state of the two nested loops of \<^verbatim>\<open>analyze\<close>: the detected
  \<^verbatim>\<open>{word, category}\<close> objects, in the order they were pushed, and the running score.
\<close>

type_synonym scan = "(string \<times> string) list \<times> int"

definition addSeverity :: "string \<Rightarrow> int \<Rightarrow> int" where
  \<comment> \<open>the chain of \<^verbatim>\<open>if (category === ...) severityScore += ...\<close>\<close>
  "addSeverity category score =
     (if category = ''suicide'' then score + 10
      else if category = ''selfHarm'' then score + 8
      else if category = ''violence'' then score + 9
      else if category = ''death'' then score + 7
      else if category = ''severe'' then score + 5
      else score)"

fun scanWords :: "string \<Rightarrow> string \<Rightarrow> string list \<Rightarrow> scan \<Rightarrow> scan" where
  \<comment> \<open>the inner loop \<^verbatim>\<open>for (const word of words)\<close>\<close>
  "scanWords lowerMessage category [] st = st"
| "scanWords lowerMessage category (word # rest) (detected, score) =
     (if includes_str lowerMessage word
      then scanWords lowerMessage category rest
             (detected @ [(word, category)], addSeverity category score)
      else scanWords lowerMessage category rest (detected, score))"

fun scanCategories :: "string \<Rightarrow> (string \<times> string list) list \<Rightarrow> scan \<Rightarrow> scan" where
  \<comment> \<open>the outer loop \<^verbatim>\<open>for (const [category, words] of Object.entries(this.keywords))\<close>\<close>
  "scanCategories lowerMessage [] st = st"
| "scanCategories lowerMessage ((category, words) # rest) st =
     scanCategories lowerMessage rest (scanWords lowerMessage category words st)"

definition determineLevel :: "int \<Rightarrow> bool \<times> string" where
  \<comment> \<open>the block under "Determine crisis level": the pair \<^verbatim>\<open>(isCrisis, crisisLevel)\<close>\<close>
  "determineLevel score =
     (if score \<ge> 10 then (True, ''critical'')
      else if score \<ge> 7 then (True, ''high'')
      else if score \<ge> 5 then (True, ''moderate'')
      else (False, ''none''))"

definition recommendations :: "(string \<times> string) list" where
  "recommendations =
    [(''critical'', ''ACCI'' @ [CHR 0xD3] @ ''N INMEDIATA REQUERIDA: Contactar al estudiante de inmediato. Considerar intervenci'' @ [CHR 0xF3] @ ''n de emergencia.''),
     (''high'', ''ALTA PRIORIDAD: Responder dentro de las pr'' @ [CHR 0xF3] @ ''ximas 2 horas. Evaluar necesidad de intervenci'' @ [CHR 0xF3] @ ''n.''),
     (''moderate'', ''PRIORIDAD MEDIA: Responder dentro del mismo d'' @ [CHR 0xED] @ ''a. Monitorear de cerca.''),
     (''none'', ''Seguimiento est'' @ [CHR 0xE1] @ ''ndar seg'' @ [CHR 0xFA] @ ''n protocolo.'')]"

definition recommendations_none :: string where
  \<comment> \<open>\<^verbatim>\<open>recommendations.none\<close>\<close>
  "recommendations_none = (case map_of recommendations ''none'' of Some r \<Rightarrow> r | None \<Rightarrow> [])"

definition getRecommendation :: "string \<Rightarrow> string" where
  \<comment> \<open>\<^verbatim>\<open>recommendations[level] || recommendations.none\<close>, for the own keys of the table\<close>
  "getRecommendation level =
     (case map_of recommendations level of
        Some r \<Rightarrow> r
      | None \<Rightarrow> recommendations_none)"

fun uniq :: "string list \<Rightarrow> string list \<Rightarrow> string list" where
  \<comment> \<open>\<^verbatim>\<open>[...new Set(xs)]\<close>: the first occurrence of each element, in insertion order\<close>
  "uniq seen [] = seen"
| "uniq seen (x # xs) = (if x \<in> set seen then uniq seen xs else uniq (seen @ [x]) xs)"

definition analyze :: "string \<Rightarrow> analysis" where
  "analyze message =
     (let lowerMessage = toLowerCase message;
          (detected, score) = scanCategories lowerMessage keywords_table ([], 0);
          (crisis, level) = determineLevel score
      in \<lparr> isCrisis = crisis,
           crisisLevel = level,
           severityScore = score,
           detectedKeywords = map fst detected,
           categories = uniq [] (map snd detected),
           recommendation = getRecommendation level \<rparr>)"

definition adjustUrgency :: "string \<Rightarrow> analysis \<Rightarrow> string" where
  "adjustUrgency currentUrgency a =
     (if crisisLevel a = ''critical'' then ''urgente''
      else if crisisLevel a = ''high'' then ''alta''
      else if crisisLevel a = ''moderate'' \<and> currentUrgency = ''baja'' then ''media''
      else currentUrgency)"


section \<open>Messages and their store (app.js, counselor.js)\<close>

record reply =
  from_r :: string
  message_r :: string
  timestamp_r :: string

record message_record =
  id_m :: string
  trackingCode :: string
  category :: string
  urgency :: string
  message :: string
  mood :: string
  timestamp :: string
  status :: string
  crisisDetected :: bool
  crisisLevel_m :: string
  crisisKeywords :: "string list"
  replies :: "reply list"
  counselorNotes :: string

text \<open>
  The store is the array kept under \<^verbatim>\<open>vocesAnonimas_messages\<close>: \<^verbatim>\<open>getMessages\<close> parses it
  and \<^verbatim>\<open>saveMessages\<close> writes it back whole, so every operation below takes the array
  and returns the array it saves. The form data handed to \<^verbatim>\<open>addMessage\<close>:
\<close>

record messageData =
  category_d :: string
  urgency_d :: string
  message_d :: string
  mood_d :: string

subsection \<open>Tracking codes\<close>

definition chars :: string where
  "chars = ''ABCDEFGHJKLMNPQRSTUVWXYZ23456789''"

definition charAt :: "string \<Rightarrow> int \<Rightarrow> string" where
  \<comment> \<open>\<^verbatim>\<open>String.prototype.charAt\<close>: the empty string outside the string\<close>
  "charAt s i = (if 0 \<le> i \<and> i < int (length s) then [s ! nat i] else [])"

text \<open>
  \<^verbatim>\<open>Math.random\<close> is an input: \<open>rnd n\<close> is the value of its \<open>n\<close>-th call, and the
  functions below are told the number \<open>k\<close> of calls made so far. The product with
  \<^verbatim>\<open>chars.length\<close> (a power of two) is exact in floating point, so it is the product of
  the reals.
\<close>

function codeLoop :: "(nat \<Rightarrow> real) \<Rightarrow> nat \<Rightarrow> nat \<Rightarrow> string \<Rightarrow> string" where
  \<comment> \<open>\<^verbatim>\<open>for (let i = 0; i < 8; i++) code += chars.charAt(Math.floor(Math.random() * chars.length))\<close>\<close>
  "codeLoop rnd k i code =
     (if i < 8
      then codeLoop rnd k (i + 1)
             (code @ charAt chars (floor (rnd (k + i) * real (length chars))))
      else code)"
  by pat_completeness auto
termination
  by (relation "measure (\<lambda>(rnd, k, i, code). 8 - i)") auto

declare codeLoop.simps [simp del]

text \<open>
  A draw that collides with a stored code is retried by a recursive call, which consumes
  the next eight random values. A sequence of draws that never leaves the stored codes
  makes the source recurse without end: that is the value \<open>None\<close>.
\<close>

partial_function (option) generateTrackingCode ::
    "(nat \<Rightarrow> real) \<Rightarrow> nat \<Rightarrow> message_record list \<Rightarrow> string option" where
  "generateTrackingCode rnd k messages =
     (let code = codeLoop rnd k 0 []
      in if list_ex (\<lambda>m. trackingCode m = code) messages
         then generateTrackingCode rnd (k + 8) messages
         else Some code)"

subsection \<open>Creating a message\<close>

text \<open>
  \<open>nowId\<close> is \<^verbatim>\<open>Date.now().toString()\<close> and \<open>nowIso\<close> is \<^verbatim>\<open>new Date().toISOString()\<close>.
  The result is the created message and the saved array (\<^verbatim>\<open>unshift\<close> puts the message
  in front).
\<close>

definition addMessage ::
    "(nat \<Rightarrow> real) \<Rightarrow> string \<Rightarrow> string \<Rightarrow> messageData \<Rightarrow> message_record list
       \<Rightarrow> (message_record \<times> message_record list) option" where
  "addMessage rnd nowId nowIso data messages =
     (case generateTrackingCode rnd 0 messages of
        None \<Rightarrow> None
      | Some code \<Rightarrow>
          let crisisAnalysis = analyze (message_d data);
              adjustedUrgency = adjustUrgency (urgency_d data) crisisAnalysis;
              newMessage = \<lparr> id_m = nowId,
                             trackingCode = code,
                             category = category_d data,
                             urgency = adjustedUrgency,
                             message = message_d data,
                             mood = mood_d data,
                             timestamp = nowIso,
                             status = ''new'',
                             crisisDetected = isCrisis crisisAnalysis,
                             crisisLevel_m = crisisLevel crisisAnalysis,
                             crisisKeywords = detectedKeywords crisisAnalysis,
                             replies = [],
                             counselorNotes = [] \<rparr>
          in Some (newMessage, newMessage # messages))"

subsection \<open>Looking a message up\<close>

definition upperChar :: "char \<Rightarrow> nat list" where
  \<comment> \<open>Unicode upper-casing of one Latin-1 code unit, as UTF-16 code units: a..z and the
      accented small letters U+00E0..U+00FE (the division sign U+00F7 apart) move down by
      32; the sharp s becomes SS; y with diaeresis and the micro sign leave Latin-1.\<close>
  "upperChar c =
     (let n = (of_char c :: nat)
      in if (97 \<le> n \<and> n \<le> 122) \<or> (224 \<le> n \<and> n \<le> 254 \<and> n \<noteq> 247) then [n - 32]
         else if n = 223 then [83, 83]
         else if n = 255 then [376]
         else if n = 181 then [924]
         else [n])"

definition toUpperCase :: "string \<Rightarrow> nat list" where
  \<comment> \<open>\<^verbatim>\<open>String.prototype.toUpperCase\<close> on the Latin-1 range\<close>
  "toUpperCase s = concat (map upperChar s)"

definition getMessageByCode :: "string \<Rightarrow> message_record list \<Rightarrow> message_record option" where
  \<comment> \<open>\<^verbatim>\<open>Array.prototype.find\<close>: the first element that passes, \<^verbatim>\<open>undefined\<close> (here
      \<open>None\<close>) when none does\<close>
  "getMessageByCode code messages =
     find (\<lambda>m. toUpperCase (trackingCode m) = toUpperCase code) messages"

subsection \<open>Replies\<close>

fun findIndex :: "('a \<Rightarrow> bool) \<Rightarrow> 'a list \<Rightarrow> nat option" where
  \<comment> \<open>the position of the first element that passes; \<open>None\<close> is the source's \<^verbatim>\<open>-1\<close>
      (\<^verbatim>\<open>findIndex\<close>) or \<^verbatim>\<open>undefined\<close> (\<^verbatim>\<open>find\<close>)\<close>
  "findIndex P [] = None"
| "findIndex P (x # xs) = (if P x then Some 0 else map_option Suc (findIndex P xs))"

definition handleReplySubmit ::
    "string \<Rightarrow> string \<Rightarrow> string \<Rightarrow> string \<Rightarrow> message_record list \<Rightarrow> message_record list" where
  \<comment> \<open>\<open>messageId\<close>, \<open>replyText\<close> and \<open>notes\<close> are read from the form, \<open>now\<close> is
      \<^verbatim>\<open>new Date().toISOString()\<close>; the found object is an element of the array, so the
      writes to it are writes to that element\<close>
  "handleReplySubmit messageId replyText notes now messages =
     (case findIndex (\<lambda>m. id_m m = messageId) messages of
        None \<Rightarrow> messages
      | Some i \<Rightarrow>
          let m = messages ! i;
              m1 = m\<lparr>replies := replies m @
                     [\<lparr>from_r = ''counselor'', message_r = replyText, timestamp_r = now\<rparr>]\<rparr>;
              m2 = m1\<lparr>counselorNotes := notes\<rparr>;
              m3 = (if status m2 = ''new'' \<or> status m2 = ''in-review''
                    then m2\<lparr>status := ''responded''\<rparr> else m2)
          in messages[i := m3])"

definition isWhiteSpace :: "char \<Rightarrow> bool" where
  \<comment> \<open>the white space and line terminators of the Latin-1 range\<close>
  "isWhiteSpace c = ((of_char c :: nat) \<in> {9, 10, 11, 12, 13, 32, 160})"

definition trim :: "string \<Rightarrow> string" where
  "trim s = rev (dropWhile isWhiteSpace (rev (dropWhile isWhiteSpace s)))"

definition handleStudentReply ::
    "string \<Rightarrow> string \<Rightarrow> string \<Rightarrow> message_record list \<Rightarrow> message_record list" where
  \<comment> \<open>\<open>text\<close> is the value of the reply field, \<open>now\<close> is \<^verbatim>\<open>new Date().toISOString()\<close>\<close>
  "handleStudentReply code text now messages =
     (let replyText = trim text
      in if replyText = [] then messages
         else case findIndex (\<lambda>m. trackingCode m = code) messages of
                None \<Rightarrow> messages
              | Some messageIndex \<Rightarrow>
                  let m = messages ! messageIndex;
                      m1 = m\<lparr>replies := replies m @
                             [\<lparr>from_r = ''student'', message_r = replyText, timestamp_r = now\<rparr>]\<rparr>;
                      m2 = m1\<lparr>status := ''responded''\<rparr>
                  in messages[messageIndex := m2])"


section \<open>The notions the properties are stated with\<close>

definition keywordPairs :: "(string \<times> string) list" where
  \<comment> \<open>the (keyword, category) pairs of the table\<close>
  "keywordPairs =
     concat (map (\<lambda>(category, words). map (\<lambda>word. (word, category)) words) keywords_table)"

definition categoryWeights :: "(string \<times> int) list" where
  "categoryWeights =
     [(''suicide'', 10), (''selfHarm'', 8), (''violence'', 9), (''death'', 7), (''severe'', 5)]"

definition categoryWeight :: "string \<Rightarrow> int" where
  "categoryWeight c = (case map_of categoryWeights c of Some w \<Rightarrow> w | None \<Rightarrow> 0)"

definition occursCaseInsensitive :: "string \<Rightarrow> string \<Rightarrow> bool" where
  \<comment> \<open>some stretch of the text is the word, up to the case of the letters\<close>
  "occursCaseInsensitive word text =
     (\<exists>before part after. text = before @ part @ after \<and> toLowerCase part = toLowerCase word)"

definition levelOfScore :: "int \<Rightarrow> string" where
  \<comment> \<open>the thresholds, highest first\<close>
  "levelOfScore score =
     (if score \<ge> 10 then ''critical''
      else if score \<ge> 7 then ''high''
      else if score \<ge> 5 then ''moderate''
      else ''none'')"

type_synonym policy = "((string \<Rightarrow> string \<Rightarrow> bool) \<times> string) list"

definition policyTable :: policy where
  \<comment> \<open>the ordered rules: a condition on (level, declared urgency) and the urgency forced\<close>
  "policyTable =
     [(\<lambda>level declared. level = ''critical'', ''urgente''),
      (\<lambda>level declared. level = ''high'', ''alta''),
      (\<lambda>level declared. level = ''moderate'' \<and> declared = ''baja'', ''media'')]"

fun firstMatch :: "policy \<Rightarrow> string \<Rightarrow> string \<Rightarrow> string" where
  \<comment> \<open>the first rule whose condition holds decides; with no such rule the declared
      urgency stays\<close>
  "firstMatch [] level declared = declared"
| "firstMatch ((applies, forced) # rules) level declared =
     (if applies level declared then forced else firstMatch rules level declared)"

definition urgencyScale :: "string list" where
  "urgencyScale = [''baja'', ''media'', ''alta'', ''urgente'']"

definition urgencyRank :: "string \<Rightarrow> nat" where
  \<comment> \<open>the position on the scale; meaningful for the four urgencies of the scale\<close>
  "urgencyRank u =
     (if u = ''baja'' then 0 else if u = ''media'' then 1 else if u = ''alta'' then 2 else 3)"

definition codeSpace :: "string set" where
  \<comment> \<open>the strings of eight characters of the alphabet\<close>
  "codeSpace = {code. set code \<subseteq> set chars \<and> length code = 8}"

definition storedCodes :: "message_record list \<Rightarrow> string set" where
  "storedCodes messages = trackingCode ` set messages"


subsection \<open>Sample inputs\<close>

definition sampleRandom :: "nat \<Rightarrow> real" where
  \<comment> \<open>a sequence of random values that walks through the alphabet\<close>
  "sampleRandom n = real (n mod 32) / 32"

definition sampleData :: messageData where
  "sampleData = \<lparr> category_d = ''familia'', urgency_d = ''urgente'',
                   message_d = ''el funeral'', mood_d = ''triste'' \<rparr>"

definition sampleMessage :: message_record where
  \<comment> \<open>a stored message whose code is the first draw of \<open>sampleRandom\<close>\<close>
  "sampleMessage = \<lparr> id_m = ''1700000000000'', trackingCode = ''ABCDEFGH'',
       category = ''familia'', urgency = ''media'', message = ''hola'', mood = ''triste'',
       timestamp = ''2025-12-08T18:41:44.000Z'', status = ''resolved'',
       crisisDetected = False, crisisLevel_m = ''none'', crisisKeywords = [],
       replies = [], counselorNotes = [] \<rparr>"

section \<open>Properties of the classifier\<close>

subsection \<open>Substring search\<close>

lemma startsWith_iff: "startsWith s w \<longleftrightarrow> (\<exists>ss. s = w @ ss)"
  by (induction s w rule: startsWith.induct) auto

lemma includes_str_iff: "includes_str s w \<longleftrightarrow> (\<exists>ps ss. s = ps @ w @ ss)"
proof (induction s)
  case Nil
  then show ?case by auto
next
  case (Cons c cs)
  show ?case
  proof
    assume "includes_str (c # cs) w"
    then consider "startsWith (c # cs) w" | "includes_str cs w" by auto
    then show "\<exists>ps ss. c # cs = ps @ w @ ss"
    proof cases
      case 1
      then obtain ss where "c # cs = w @ ss" by (auto simp: startsWith_iff)
      then have "c # cs = [] @ w @ ss" by simp
      then show ?thesis by blast
    next
      case 2
      then obtain ps ss where "cs = ps @ w @ ss" using Cons.IH by blast
      then have "c # cs = (c # ps) @ w @ ss" by simp
      then show ?thesis by blast
    qed
  next
    assume "\<exists>ps ss. c # cs = ps @ w @ ss"
    then obtain ps ss where eq: "c # cs = ps @ w @ ss" by blast
    show "includes_str (c # cs) w"
    proof (cases ps)
      case Nil
      with eq have "startsWith (c # cs) w" by (auto simp: startsWith_iff)
      then show ?thesis by simp
    next
      case (Cons p ps')
      with eq have "cs = ps' @ w @ ss" by simp
      then have "includes_str cs w" using Cons.IH by blast
      then show ?thesis by simp
    qed
  qed
qed

lemma includes_toLowerCase_iff:
  "includes_str (toLowerCase text) w \<longleftrightarrow>
     (\<exists>before part after. text = before @ part @ after \<and> toLowerCase part = w)"
  unfolding includes_str_iff toLowerCase_def
proof
  assume "\<exists>ps ss. map lowerChar text = ps @ w @ ss"
  then obtain ps ss where m: "map lowerChar text = ps @ w @ ss" by blast
  define b where "b = take (length ps) text"
  define p where "p = take (length w) (drop (length ps) text)"
  define a where "a = drop (length w) (drop (length ps) text)"
  have t: "text = b @ p @ a" unfolding b_def p_def a_def append_take_drop_id ..
  have "map lowerChar p = take (length w) (drop (length ps) (map lowerChar text))"
    by (simp add: p_def take_map drop_map)
  also have "\<dots> = w" by (simp add: m)
  finally have "map lowerChar p = w" .
  with t show "\<exists>before part after. text = before @ part @ after \<and> map lowerChar part = w"
    by blast
next
  assume "\<exists>before part after. text = before @ part @ after \<and> map lowerChar part = w"
  then obtain b p a where "text = b @ p @ a" and "map lowerChar p = w" by blast
  then have "map lowerChar text = map lowerChar b @ w @ map lowerChar a" by simp
  then show "\<exists>ps ss. map lowerChar text = ps @ w @ ss" by blast
qed

lemma addSeverity_categoryWeight: "addSeverity cat score = score + categoryWeight cat"
  by (simp add: addSeverity_def categoryWeight_def categoryWeights_def)

lemma scanWords_score:
  "snd (scanWords lm cat ws st) =
     snd st + (\<Sum>word\<leftarrow>ws. if includes_str lm word then categoryWeight cat else 0)"
proof (induction ws arbitrary: st)
  case Nil
  then show ?case by simp
next
  case (Cons w ws')
  obtain d s where st: "st = (d, s)" by (cases st)
  show ?case unfolding st by (simp add: Cons.IH addSeverity_categoryWeight)
qed

lemma scanCategories_score:
  "snd (scanCategories lm table st) =
     snd st + (\<Sum>(word, cat)\<leftarrow>concat (map (\<lambda>(cat, words). map (\<lambda>word. (word, cat)) words) table).
                 if includes_str lm word then categoryWeight cat else 0)"
proof (induction table arbitrary: st)
  case Nil
  then show ?case by simp
next
  case (Cons p rest)
  obtain c ws where p: "p = (c, ws)" by (cases p)
  show ?case unfolding p
    by (simp add: Cons.IH scanWords_score comp_def)
qed

lemma distinct_keywordPairs: "distinct keywordPairs"
  by code_simp

lemma keywordPairs_lower_all: "list_all (\<lambda>(word, cat). toLowerCase word = word) keywordPairs"
  by code_simp

lemma keywordPairs_lower: "(word, cat) \<in> set keywordPairs \<Longrightarrow> toLowerCase word = word"
  using keywordPairs_lower_all unfolding list_all_iff by blast

lemma severityScore_analyze:
  "severityScore (analyze text) = snd (scanCategories (toLowerCase text) keywords_table ([], 0))"
  by (simp add: analyze_def Let_def split: prod.splits)


text \<open>
  Claim C1. For every text, the \<open>severityScore\<close> that \<open>analyze\<close> returns is the sum, over
  the (keyword, category) pairs of the table whose keyword occurs in the text as a
  substring up to the case of the letters (also inside a longer word), of the weight of
  the category: suicide 10, selfHarm 8, violence 9, death 7, severe 5. The sum runs over
  the set of pairs, so a pair counts once however often its keyword occurs, and two
  keywords of one category both count.
\<close>

theorem analyze_severityScore:
  "severityScore (analyze text) =
     (\<Sum>(word, cat)\<in>set keywordPairs.
        if occursCaseInsensitive word text then categoryWeight cat else 0)"
proof -
  have "severityScore (analyze text) =
      (\<Sum>(word, cat)\<leftarrow>keywordPairs.
         if includes_str (toLowerCase text) word then categoryWeight cat else 0)"
    by (simp add: severityScore_analyze scanCategories_score keywordPairs_def)
  also have "\<dots> = (\<Sum>(word, cat)\<in>set keywordPairs.
         if includes_str (toLowerCase text) word then categoryWeight cat else 0)"
    using distinct_keywordPairs by (simp add: sum_list_distinct_conv_sum_set)
  also have "\<dots> = (\<Sum>(word, cat)\<in>set keywordPairs.
        if occursCaseInsensitive word text then categoryWeight cat else 0)"
  proof (rule sum.cong[OF refl])
    fix p assume "p \<in> set keywordPairs"
    moreover obtain w c where p: "p = (w, c)" by (cases p)
    ultimately have "(w, c) \<in> set keywordPairs" by simp
    then have "toLowerCase w = w" by (rule keywordPairs_lower)
    then show "(case p of (word, cat) \<Rightarrow> if includes_str (toLowerCase text) word then categoryWeight cat else 0)
       = (case p of (word, cat) \<Rightarrow> if occursCaseInsensitive word text then categoryWeight cat else 0)"
      by (simp add: p includes_toLowerCase_iff occursCaseInsensitive_def)
  qed
  finally show ?thesis .
qed



text \<open>
  A keyword written twice counts once, capitals match, and so does a keyword inside a
  longer word.
\<close>

lemma analyze_keyword_occurrences:
  "severityScore (analyze ''horrible, horrible'') = 5"
  "severityScore (analyze ''HORRIBLE'') = 5"
  "severityScore (analyze ''horriblemente'') = 5"
  "severityScore (analyze (''no puedo M'' @ [CHR 0xC1] @ ''S'')) = 5"
  by code_simp+

subsection \<open>Levels\<close>

lemma analyze_fields:
  "crisisLevel (analyze text) = snd (determineLevel (severityScore (analyze text)))"
  "isCrisis (analyze text) = fst (determineLevel (severityScore (analyze text)))"
  by (simp_all add: analyze_def Let_def split: prod.splits)

lemma determineLevel_levelOfScore: "determineLevel score = (levelOfScore score \<noteq> ''none'', levelOfScore score)"
  by (simp add: determineLevel_def levelOfScore_def)

text \<open>
  Claim C2. For every text, the level that \<open>analyze\<close> returns is read off the score with
  the thresholds tried highest first (at least 10 critical, else at least 7 high, else at
  least 5 moderate, else none), and \<open>isCrisis\<close> holds exactly when the level is not none.
  At the boundaries: 10 gives critical, 9 and 7 give high, 6 and 5 give moderate, 4 gives
  none.
\<close>

theorem analyze_level_thresholds:
  "crisisLevel (analyze text) = levelOfScore (severityScore (analyze text))
   \<and> (isCrisis (analyze text) \<longleftrightarrow> crisisLevel (analyze text) \<noteq> ''none'')
   \<and> snd (determineLevel 10) = ''critical''
   \<and> snd (determineLevel 9) = ''high''
   \<and> snd (determineLevel 7) = ''high''
   \<and> snd (determineLevel 6) = ''moderate''
   \<and> snd (determineLevel 5) = ''moderate''
   \<and> snd (determineLevel 4) = ''none''"
  by (simp add: analyze_fields determineLevel_levelOfScore) (simp add: levelOfScore_def)

text \<open>Texts that reach the scores 10, 9, 7, 5 and 0.\<close>

lemma analyze_boundary_texts:
  "severityScore (analyze ''horrible, terrible'') = 10"
  "crisisLevel (analyze ''horrible, terrible'') = ''critical''"
  "severityScore (analyze ''un arma'') = 9"
  "crisisLevel (analyze ''un arma'') = ''high''"
  "severityScore (analyze ''el funeral'') = 7"
  "crisisLevel (analyze ''el funeral'') = ''high''"
  "severityScore (analyze ''fue horrible'') = 5"
  "crisisLevel (analyze ''fue horrible'') = ''moderate''"
  "severityScore (analyze ''hola'') = 0"
  "crisisLevel (analyze ''hola'') = ''none''"
  by code_simp+

section \<open>Properties of the urgency adjustment\<close>

text \<open>
  Claim C3. For every declared urgency and every analysis, \<open>adjustUrgency\<close> is the ordered
  policy table with the first matching rule deciding: level critical gives urgente; else
  level high gives alta; else level moderate with declared baja gives media; otherwise the
  declared urgency is returned as it is.
\<close>

theorem adjustUrgency_policy:
  "adjustUrgency declared a = firstMatch policyTable (crisisLevel a) declared
   \<and> adjustUrgency declared a =
       (if crisisLevel a = ''critical'' then ''urgente''
        else if crisisLevel a = ''high'' then ''alta''
        else if crisisLevel a = ''moderate'' \<and> declared = ''baja'' then ''media''
        else declared)"
  by (simp add: adjustUrgency_def policyTable_def)

text \<open>
  Claim C5. For every declared urgency of the scale baja < media < alta < urgente and every
  analysis, \<open>adjustUrgency\<close> stays on the scale and yields an urgency strictly below the
  declared one in exactly one case: the level is high and the declared urgency is urgente,
  where it yields alta.
\<close>

theorem adjustUrgency_lowers_only_urgente_on_high:
  assumes "declared \<in> set urgencyScale"
  shows "adjustUrgency declared a \<in> set urgencyScale
     \<and> (urgencyRank (adjustUrgency declared a) < urgencyRank declared
          \<longleftrightarrow> crisisLevel a = ''high'' \<and> declared = ''urgente'')
     \<and> (crisisLevel a = ''high'' \<and> declared = ''urgente''
          \<longrightarrow> adjustUrgency declared a = ''alta'')"
  using assms by (auto simp: urgencyScale_def adjustUrgency_def urgencyRank_def)

theorem adjustUrgency_lowers_only_urgente_on_high_witness:
  "''urgente'' \<in> set urgencyScale
   \<and> crisisLevel (analyze ''el funeral'') = ''high''
   \<and> urgencyRank (adjustUrgency ''urgente'' (analyze ''el funeral'')) < urgencyRank ''urgente''
   \<and> adjustUrgency ''urgente'' (analyze ''el funeral'') = ''alta''"
proof -
  have s: "''urgente'' \<in> set urgencyScale" by (simp add: urgencyScale_def)
  have h: "crisisLevel (analyze ''el funeral'') = ''high''" by code_simp
  show ?thesis
    using s h adjustUrgency_lowers_only_urgente_on_high [OF s, of "analyze ''el funeral''"]
    by blast
qed

section \<open>The worked example\<close>

text \<open>
  Claim C6, as the specification states it, gives the text
  "me siento desesperado y quiero matarme" the score 15. The score is not 15:
\<close>

theorem analyze_example_score_not_15:
  "severityScore (analyze ''me siento desesperado y quiero matarme'') \<noteq> 15"
  by code_simp

text \<open>
  Claim C6, amended. The text "me siento desesperado y quiero matarme" matches matarme
  (suicide, 10), matar (violence, 9: it occurs inside matarme) and desesperado (severe, 5);
  the score is 24, the level critical, \<open>isCrisis\<close> true, and a declared urgency baja is
  adjusted to urgente.
\<close>

theorem analyze_example:
  "detectedKeywords (analyze ''me siento desesperado y quiero matarme'')
     = [''matarme'', ''matar'', ''desesperado'']
   \<and> categories (analyze ''me siento desesperado y quiero matarme'')
     = [''suicide'', ''violence'', ''severe'']
   \<and> severityScore (analyze ''me siento desesperado y quiero matarme'') = 10 + 9 + 5
   \<and> crisisLevel (analyze ''me siento desesperado y quiero matarme'') = ''critical''
   \<and> isCrisis (analyze ''me siento desesperado y quiero matarme'')
   \<and> adjustUrgency ''baja'' (analyze ''me siento desesperado y quiero matarme'') = ''urgente''"
  by code_simp


section \<open>Properties of the tracking codes\<close>

lemma charAt_chars:
  assumes "0 \<le> r" and "r < 1"
  shows "\<exists>c\<in>set chars. charAt chars (floor (r * real (length chars))) = [c]"
proof -
  have len: "length chars = 32" by (simp add: chars_def)
  have lo: "0 \<le> floor (r * 32)" using assms by simp
  have "r * 32 < 32" using assms by simp
  then have hi: "floor (r * 32) < 32" by (simp add: floor_less_iff)
  have "nat (floor (r * 32)) < length chars" unfolding len using lo hi by linarith
  then have "chars ! nat (floor (r * 32)) \<in> set chars" by (rule nth_mem)
  moreover have "charAt chars (floor (r * real (length chars))) = [chars ! nat (floor (r * 32))]"
    using lo hi by (simp add: charAt_def len)
  ultimately show ?thesis by blast
qed

lemma codeLoop_shape:
  "(\<forall>n. 0 \<le> rnd n \<and> rnd n < 1) \<Longrightarrow> i \<le> 8 \<Longrightarrow>
     length (codeLoop rnd k i code) = length code + (8 - i)
     \<and> set (codeLoop rnd k i code) \<subseteq> set code \<union> set chars"
proof (induction rnd k i code rule: codeLoop.induct)
  case (1 rnd k i code)
  show ?case
  proof (cases "i < 8")
    case True
    from "1.prems"(1) have "0 \<le> rnd (k + i)" and "rnd (k + i) < 1" by simp_all
    then obtain c where c: "c \<in> set chars"
        "charAt chars (floor (rnd (k + i) * real (length chars))) = [c]"
      using charAt_chars by blast
    have step: "codeLoop rnd k i code = codeLoop rnd k (i + 1) (code @ [c])"
      using True c(2) by (subst codeLoop.simps) simp
    have "length (codeLoop rnd k (i + 1) (code @ [c])) = length (code @ [c]) + (8 - (i + 1))
        \<and> set (codeLoop rnd k (i + 1) (code @ [c])) \<subseteq> set (code @ [c]) \<union> set chars"
      using "1.IH"[OF True] "1.prems"(1) True c(2) by simp
    with True c(1) show ?thesis unfolding step by auto
  next
    case False
    then have "codeLoop rnd k i code = code" by (subst codeLoop.simps) simp
    with False "1.prems" show ?thesis by simp
  qed
qed

lemma list_ex_storedCodes:
  "list_ex (\<lambda>m. trackingCode m = code) messages \<longleftrightarrow> code \<in> storedCodes messages"
  by (auto simp: list_ex_iff storedCodes_def)

lemma codeLoop_code:
  assumes "\<forall>n. 0 \<le> rnd n \<and> rnd n < 1"
  shows "length (codeLoop rnd k 0 []) = 8" and "set (codeLoop rnd k 0 []) \<subseteq> set chars"
  using codeLoop_shape[OF assms, of 0 k "[]"] by simp_all

lemma generateTrackingCode_sound:
  assumes "generateTrackingCode rnd k messages = Some code"
  shows "code \<notin> storedCodes messages \<and> (\<exists>n. code = codeLoop rnd (k + 8 * n) 0 [])"
proof (rule generateTrackingCode.raw_induct
    [where P = "\<lambda>rnd k messages code.
        code \<notin> storedCodes messages \<and> (\<exists>n. code = codeLoop rnd (k + 8 * n) 0 [])",
     OF _ assms])
  fix gen :: "(nat \<Rightarrow> real) \<Rightarrow> nat \<Rightarrow> message_record list \<Rightarrow> string option"
  fix rnd k messages code
  assume IH: "\<And>rnd k messages code. gen rnd k messages = Some code \<Longrightarrow>
      code \<notin> storedCodes messages \<and> (\<exists>n. code = codeLoop rnd (k + 8 * n) 0 [])"
  assume eq: "(let code = codeLoop rnd k 0 []
               in if list_ex (\<lambda>m. trackingCode m = code) messages
                  then gen rnd (k + 8) messages else Some code) = Some code"
  show "code \<notin> storedCodes messages \<and> (\<exists>n. code = codeLoop rnd (k + 8 * n) 0 [])"
  proof (cases "list_ex (\<lambda>m. trackingCode m = codeLoop rnd k 0 []) messages")
    case True
    with eq have "gen rnd (k + 8) messages = Some code" by (simp add: Let_def)
    from IH[OF this] obtain n where fresh: "code \<notin> storedCodes messages"
        and "code = codeLoop rnd (k + 8 + 8 * n) 0 []" by blast
    then have "code = codeLoop rnd (k + 8 * Suc n) 0 []" by (simp add: add.assoc)
    with fresh show ?thesis by blast
  next
    case False
    with eq have c: "code = codeLoop rnd k 0 []" by (simp add: Let_def)
    with False have "code \<notin> storedCodes messages"
      by (simp add: list_ex_storedCodes)
    moreover have "code = codeLoop rnd (k + 8 * 0) 0 []" using c by simp
    ultimately show ?thesis by blast
  qed
qed

lemma generateTrackingCode_first_fresh:
  "(\<forall>j<n. codeLoop rnd (k + 8 * j) 0 [] \<in> storedCodes messages) \<Longrightarrow>
   codeLoop rnd (k + 8 * n) 0 [] \<notin> storedCodes messages \<Longrightarrow>
   generateTrackingCode rnd k messages = Some (codeLoop rnd (k + 8 * n) 0 [])"
proof (induction n arbitrary: k)
  case 0
  then have "\<not> list_ex (\<lambda>m. trackingCode m = codeLoop rnd k 0 []) messages"
    by (simp add: list_ex_storedCodes)
  then show ?case by (subst generateTrackingCode.simps) (simp add: Let_def)
next
  case (Suc n)
  from Suc.prems(1) have "codeLoop rnd (k + 8 * 0) 0 [] \<in> storedCodes messages" by blast
  then have hit: "list_ex (\<lambda>m. trackingCode m = codeLoop rnd k 0 []) messages"
    by (simp add: list_ex_storedCodes)
  have "\<forall>j<n. codeLoop rnd (k + 8 + 8 * j) 0 [] \<in> storedCodes messages"
  proof (intro allI impI)
    fix j assume "j < n"
    then have "codeLoop rnd (k + 8 * Suc j) 0 [] \<in> storedCodes messages"
      using Suc.prems(1) by blast
    then show "codeLoop rnd (k + 8 + 8 * j) 0 [] \<in> storedCodes messages"
      by (simp add: add.assoc)
  qed
  moreover have "codeLoop rnd (k + 8 + 8 * n) 0 [] \<notin> storedCodes messages"
    using Suc.prems(2) by (simp add: add.assoc)
  ultimately have "generateTrackingCode rnd (k + 8) messages
      = Some (codeLoop rnd (k + 8 + 8 * n) 0 [])"
    by (rule Suc.IH)
  then have "generateTrackingCode rnd (k + 8) messages = Some (codeLoop rnd (k + 8 * Suc n) 0 [])"
    by (simp add: add.assoc)
  with hit show ?case by (subst generateTrackingCode.simps) (simp add: Let_def)
qed

lemma generateTrackingCode_returns:
  assumes "\<exists>n. codeLoop rnd (k + 8 * n) 0 [] \<notin> storedCodes messages"
  shows "\<exists>code. generateTrackingCode rnd k messages = Some code"
proof -
  define n where "n = (LEAST n. codeLoop rnd (k + 8 * n) 0 [] \<notin> storedCodes messages)"
  have fresh: "codeLoop rnd (k + 8 * n) 0 [] \<notin> storedCodes messages"
    unfolding n_def using assms by (rule LeastI_ex)
  have "\<forall>j<n. codeLoop rnd (k + 8 * j) 0 [] \<in> storedCodes messages"
    unfolding n_def using not_less_Least by blast
  then show ?thesis using fresh generateTrackingCode_first_fresh by blast
qed

lemma distinct_chars: "distinct chars"
  by (simp add: chars_def)

lemma card_codeSpace: "card codeSpace = 32 ^ 8"
proof -
  have "card (set chars) = 32" using distinct_card[OF distinct_chars] by (simp add: chars_def)
  then show ?thesis unfolding codeSpace_def by (simp add: card_lists_length_eq)
qed

lemma chars_unambiguous: "set chars \<inter> {CHR ''I'', CHR ''O'', CHR ''0'', CHR ''1''} = {}"
  by (simp add: chars_def)


lemma codeLoop_unroll_from:
  "i \<le> 8 \<Longrightarrow> codeLoop rnd k i code =
     code @ concat (map (\<lambda>j. charAt chars (floor (rnd (k + j) * real (length chars)))) [i..<8])"
proof (induction rnd k i code rule: codeLoop.induct)
  case (1 rnd k i code)
  show ?case
  proof (cases "i < 8")
    case True
    then have "codeLoop rnd k i code = codeLoop rnd k (i + 1)
        (code @ charAt chars (floor (rnd (k + i) * real (length chars))))"
      by (subst codeLoop.simps) simp
    also have "\<dots> = (code @ charAt chars (floor (rnd (k + i) * real (length chars))))
        @ concat (map (\<lambda>j. charAt chars (floor (rnd (k + j) * real (length chars)))) [i + 1..<8])"
      using "1.IH"[OF True] True by simp
    also have "\<dots> = code @ concat (map (\<lambda>j. charAt chars (floor (rnd (k + j) * real (length chars)))) [i..<8])"
      using True by (simp add: upt_conv_Cons)
    finally show ?thesis .
  next
    case False
    then have "codeLoop rnd k i code = code" by (subst codeLoop.simps) simp
    with False "1.prems" show ?thesis by simp
  qed
qed

lemma charAt_chars_index:
  assumes "j < length chars"
  shows "charAt chars (floor (real j / 32 * real (length chars))) = [chars ! j]"
proof -
  have len: "length chars = 32" by (simp add: chars_def)
  have e: "real j / 32 * real (length chars) = real j" by (simp add: len)
  have "floor (real j / 32 * real (length chars)) = int j" unfolding e by simp
  with assms show ?thesis by (simp add: charAt_def)
qed

lemma codeSpace_producible:
  assumes "code \<in> codeSpace"
  shows "\<exists>rnd. (\<forall>n. 0 \<le> rnd n \<and> rnd n < 1) \<and> codeLoop rnd k 0 [] = code"
proof -
  from assms have len: "length code = 8" and sub: "set code \<subseteq> set chars"
    by (simp_all add: codeSpace_def)
  have clen: "length chars = 32" by (simp add: chars_def)
  define idx where "idx c = (SOME j. j < length chars \<and> chars ! j = c)" for c
  have idx: "idx c < length chars \<and> chars ! idx c = c" if "c \<in> set chars" for c
  proof -
    from that have "\<exists>j. j < length chars \<and> chars ! j = c" by (simp add: in_set_conv_nth)
    then show ?thesis unfolding idx_def by (rule someI_ex)
  qed
  define rnd where "rnd n = (if k \<le> n \<and> n < k + 8 then real (idx (code ! (n - k))) / 32 else 0)" for n
  have range: "\<forall>n. 0 \<le> rnd n \<and> rnd n < 1"
  proof
    fix n
    show "0 \<le> rnd n \<and> rnd n < 1"
    proof (cases "k \<le> n \<and> n < k + 8")
      case True
      then have "code ! (n - k) \<in> set chars" using len sub by (auto simp: subset_iff)
      then have "idx (code ! (n - k)) < 32" using idx clen by auto
      with True show ?thesis by (simp add: rnd_def)
    next
      case False
      then show ?thesis by (auto simp: rnd_def)
    qed
  qed
  have pick: "charAt chars (floor (rnd (k + j) * real (length chars))) = [code ! j]" if "j < 8" for j
  proof -
    from that have "code ! j \<in> set chars" using len sub by (auto simp: subset_iff)
    then have i: "idx (code ! j) < length chars" and c: "chars ! idx (code ! j) = code ! j"
      using idx by blast+
    have r: "rnd (k + j) = real (idx (code ! j)) / 32" using that by (simp add: rnd_def)
    show ?thesis unfolding r charAt_chars_index[OF i] c ..
  qed
  have "codeLoop rnd k 0 [] =
      concat (map (\<lambda>j. charAt chars (floor (rnd (k + j) * real (length chars)))) [0..<8])"
    using codeLoop_unroll_from[of 0 rnd k "[]"] by simp
  also have "\<dots> = concat (map (\<lambda>j. [code ! j]) [0..<8])"
    using pick by (intro arg_cong[where f = concat] map_cong) auto
  also have "\<dots> = map (\<lambda>j. code ! j) [0..<length code]"
    unfolding len by (simp add: concat_map_singleton)
  also have "\<dots> = code" by (rule map_nth)
  finally show ?thesis using range by blast
qed

lemma sampleRandom_range: "\<forall>n. 0 \<le> sampleRandom n \<and> sampleRandom n < 1"
  by (simp add: sampleRandom_def)

lemma sampleRandom_codes:
  "codeLoop sampleRandom 0 0 [] = ''ABCDEFGH''"
  "codeLoop sampleRandom 8 0 [] = ''JKLMNPQR''"
  by code_simp+


lemma sample_generate:
  "generateTrackingCode sampleRandom 0 [] = Some ''ABCDEFGH''"
  "generateTrackingCode sampleRandom 0 [sampleMessage] = Some ''JKLMNPQR''"
  using generateTrackingCode_first_fresh[of 0 sampleRandom 0 "[]"]
        generateTrackingCode_first_fresh[of 1 sampleRandom 0 "[sampleMessage]"]
  by (simp_all add: sampleRandom_codes storedCodes_def sampleMessage_def)

text \<open>
  Claim C9, as the specification states it, counts 33^8 possible codes. The alphabet has
  32 characters, and the strings of eight of them are not 33^8:
\<close>

theorem generateTrackingCode_shape_not_33:
  "card codeSpace \<noteq> 33 ^ 8"
  by (simp add: card_codeSpace)

text \<open>
  Claim C9, amended. With random values in [0, 1), every code the generator returns has
  exactly 8 characters, all of the alphabet, and is the code of no stored message; the
  generator returns as soon as one draw of eight characters is the code of no stored
  message (a collision is retried, never reported), and every string of eight characters
  of the alphabet that is not stored is returned for some random values. The alphabet has
  32 characters, without I, O, 0 and 1, so there are 32^8 codes.
\<close>

theorem generateTrackingCode_unique_code:
  assumes "\<forall>n. 0 \<le> rnd n \<and> rnd n < 1"
  shows "(\<forall>code. generateTrackingCode rnd k messages = Some code \<longrightarrow>
            length code = 8 \<and> set code \<subseteq> set chars \<and> code \<in> codeSpace
            \<and> code \<notin> storedCodes messages)
     \<and> ((\<exists>n. codeLoop rnd (k + 8 * n) 0 [] \<notin> storedCodes messages) \<longrightarrow>
            (\<exists>code. generateTrackingCode rnd k messages = Some code))
     \<and> (\<forall>code\<in>codeSpace. code \<notin> storedCodes messages \<longrightarrow>
            (\<exists>r. (\<forall>n. 0 \<le> r n \<and> r n < 1) \<and> generateTrackingCode r k messages = Some code))
     \<and> set chars \<inter> {CHR ''I'', CHR ''O'', CHR ''0'', CHR ''1''} = {}
     \<and> card (set chars) = 32
     \<and> card codeSpace = 32 ^ 8"
proof -
  have "\<exists>r. (\<forall>n. 0 \<le> r n \<and> r n < 1) \<and> generateTrackingCode r k messages = Some code"
    if "code \<in> codeSpace" and "code \<notin> storedCodes messages" for code
  proof -
    from codeSpace_producible[OF that(1), of k] obtain r
      where r: "\<forall>n. 0 \<le> r n \<and> r n < 1" and c: "codeLoop r k 0 [] = code" by blast
    from that(2) c have "codeLoop r (k + 8 * 0) 0 [] \<notin> storedCodes messages" by simp
    then have "generateTrackingCode r k messages = Some (codeLoop r (k + 8 * 0) 0 [])"
      by (intro generateTrackingCode_first_fresh) simp_all
    with c have "generateTrackingCode r k messages = Some code" by simp
    with r show ?thesis by blast
  qed
  moreover
  have "length code = 8 \<and> set code \<subseteq> set chars \<and> code \<in> codeSpace
      \<and> code \<notin> storedCodes messages"
    if "generateTrackingCode rnd k messages = Some code" for code
  proof -
    from generateTrackingCode_sound[OF that] obtain n
      where fresh: "code \<notin> storedCodes messages" and "code = codeLoop rnd (k + 8 * n) 0 []"
      by blast
    with codeLoop_code[OF assms, of "k + 8 * n"]
    have "length code = 8" and "set code \<subseteq> set chars" by simp_all
    with fresh show ?thesis by (simp add: codeSpace_def)
  qed
  moreover have "card (set chars) = 32"
    using distinct_card[OF distinct_chars] by (simp add: chars_def)
  moreover note generateTrackingCode_returns[of rnd k messages] chars_unambiguous card_codeSpace
  ultimately show ?thesis by blast
qed

theorem generateTrackingCode_unique_code_witness:
  "(\<forall>n. 0 \<le> sampleRandom n \<and> sampleRandom n < 1)
   \<and> generateTrackingCode sampleRandom 0 [sampleMessage] = Some ''JKLMNPQR''
   \<and> length ''JKLMNPQR'' = 8 \<and> ''JKLMNPQR'' \<in> codeSpace
   \<and> ''JKLMNPQR'' \<notin> storedCodes [sampleMessage]"
  using sampleRandom_range sample_generate(2)
    generateTrackingCode_unique_code[OF sampleRandom_range, of 0 "[sampleMessage]"]
  by simp

section \<open>Properties of message creation\<close>

lemma sample_analysis:
  "isCrisis (analyze ''el funeral'')"
  "crisisLevel (analyze ''el funeral'') = ''high''"
  "detectedKeywords (analyze ''el funeral'') = [''funeral'']"
  by code_simp+

text \<open>
  Claim C7, as the specification states it, has the record store the declared urgency
  beside the effective one. The record has one urgency field, which holds the adjusted
  value: two submissions that differ in the declared urgency alone are stored as the same
  record.
\<close>

theorem addMessage_declared_urgency_not_stored:
  "addMessage sampleRandom ''1'' ''t'' (sampleData\<lparr>urgency_d := ''urgente''\<rparr>) []
     = addMessage sampleRandom ''1'' ''t'' (sampleData\<lparr>urgency_d := ''media''\<rparr>) []
   \<and> addMessage sampleRandom ''1'' ''t'' (sampleData\<lparr>urgency_d := ''urgente''\<rparr>) [] \<noteq> None"
  by (simp add: addMessage_def sample_generate Let_def sampleData_def adjustUrgency_def
        sample_analysis)

text \<open>
  Claim C7, amended. Whenever some draw of the generator is the code of no stored message,
  \<open>addMessage\<close> returns a record and saves it in front of the stored messages; the
  record has status new, no replies and empty counselor notes; its single urgency field
  holds the effective urgency, that is \<open>adjustUrgency\<close> applied to the declared urgency and
  to the analysis of the body text (the declared urgency itself is not stored); and
  \<open>crisisDetected\<close>, \<open>crisisLevel\<close> and \<open>crisisKeywords\<close> are taken from that same
  analysis.
\<close>

theorem addMessage_record:
  assumes "\<exists>n. codeLoop rnd (8 * n) 0 [] \<notin> storedCodes messages"
  shows "\<exists>m. addMessage rnd nowId nowIso data messages = Some (m, m # messages)
      \<and> status m = ''new'' \<and> replies m = [] \<and> counselorNotes m = []
      \<and> urgency m = adjustUrgency (urgency_d data) (analyze (message_d data))
      \<and> crisisDetected m = isCrisis (analyze (message_d data))
      \<and> crisisLevel_m m = crisisLevel (analyze (message_d data))
      \<and> crisisKeywords m = detectedKeywords (analyze (message_d data))
      \<and> category m = category_d data \<and> message m = message_d data \<and> mood m = mood_d data
      \<and> id_m m = nowId \<and> timestamp m = nowIso
      \<and> trackingCode m \<notin> storedCodes messages"
proof -
  from assms have "\<exists>n. codeLoop rnd (0 + 8 * n) 0 [] \<notin> storedCodes messages" by simp
  then obtain code where g: "generateTrackingCode rnd 0 messages = Some code"
    using generateTrackingCode_returns by blast
  then have "code \<notin> storedCodes messages" using generateTrackingCode_sound by blast
  with g show ?thesis by (simp add: addMessage_def Let_def)
qed

theorem addMessage_record_witness:
  "(\<exists>n. codeLoop sampleRandom (8 * n) 0 [] \<notin> storedCodes [sampleMessage])
   \<and> (\<exists>m. addMessage sampleRandom ''1765219304000'' ''2025-12-08T18:41:44.000Z'' sampleData
             [sampleMessage] = Some (m, [m, sampleMessage])
          \<and> trackingCode m = ''JKLMNPQR'' \<and> status m = ''new'' \<and> urgency m = ''alta'')"
proof -
  have "codeLoop sampleRandom (8 * 1) 0 [] \<notin> storedCodes [sampleMessage]"
    by (simp add: sampleRandom_codes storedCodes_def sampleMessage_def)
  then have h: "\<exists>n. codeLoop sampleRandom (8 * n) 0 [] \<notin> storedCodes [sampleMessage]" ..
  from addMessage_record[OF h, of "''1765219304000''" "''2025-12-08T18:41:44.000Z''" sampleData]
  obtain m where m: "addMessage sampleRandom ''1765219304000'' ''2025-12-08T18:41:44.000Z''
        sampleData [sampleMessage] = Some (m, [m, sampleMessage])"
      "status m = ''new''"
      "urgency m = adjustUrgency (urgency_d sampleData) (analyze (message_d sampleData))"
    by blast
  from m(1) have "trackingCode m = ''JKLMNPQR''"
    by (auto simp: addMessage_def sample_generate Let_def)
  moreover from m(3) have "urgency m = ''alta''"
    by (simp add: sampleData_def adjustUrgency_def sample_analysis)
  ultimately show ?thesis using h m(1,2) by blast
qed

text \<open>
  Claim C4 says that the effective urgency is never below the declared one on the scale
  baja < media < alta < urgente. \<open>adjustUrgency\<close> is documented as an escalation and its
  third rule looks at the declared urgency before raising it, but its second rule does
  not: a submission declared urgente whose text reaches level high is stored as alta.
\<close>

theorem addMessage_lowers_declared_urgente:
  "map_option (urgency \<circ> fst) (addMessage sampleRandom ''1'' ''t'' sampleData []) = Some ''alta''
   \<and> urgency_d sampleData = ''urgente''
   \<and> urgencyRank ''alta'' < urgencyRank ''urgente''"
  by (simp add: addMessage_def sample_generate Let_def sampleData_def adjustUrgency_def
        sample_analysis urgencyRank_def)

section \<open>Properties of the replies\<close>

lemma findIndex_Some_iff:
  "findIndex P xs = Some i \<longleftrightarrow> i < length xs \<and> P (xs ! i) \<and> (\<forall>j<i. \<not> P (xs ! j))"
proof (induction xs arbitrary: i)
  case Nil
  then show ?case by simp
next
  case (Cons x xs)
  show ?case
  proof (cases "P x")
    case True
    then show ?thesis by (cases i) auto
  next
    case False
    show ?thesis
    proof (cases i)
      case 0
      with False show ?thesis by simp
    next
      case (Suc i')
      have "(\<forall>j<Suc i'. \<not> P ((x # xs) ! j)) \<longleftrightarrow> (\<forall>j<i'. \<not> P (xs ! j))"
        using False by (auto simp: less_Suc_eq_0_disj)
      with False Suc show ?thesis by (simp add: Cons.IH)
    qed
  qed
qed

lemma findIndex_None_iff: "findIndex P xs = None \<longleftrightarrow> (\<forall>x\<in>set xs. \<not> P x)"
  by (induction xs) auto

text \<open>
  Claim C8. A counselor reply to the message found by its id is appended at the end of
  the replies, and the status becomes responded when it was new or in-review and stays as
  it was otherwise (so responded and resolved stay). A submitter reply (with a text that
  is not blank) to the message found by its tracking code is appended at the end of the
  replies, and the status becomes responded whatever it was, resolved included. In both
  cases the earlier replies and every other message are left as they were.
\<close>

theorem reply_appends_and_sets_status:
  assumes "i < length messages" and "id_m (messages ! i) = messageId"
      and "\<forall>j<i. id_m (messages ! j) \<noteq> messageId"
      and "k < length messages" and "trackingCode (messages ! k) = code"
      and "\<forall>j<k. trackingCode (messages ! j) \<noteq> code"
      and "trim text \<noteq> []"
  shows "handleReplySubmit messageId replyText notes now messages =
           messages[i := (messages ! i)
             \<lparr> replies := replies (messages ! i) @
                 [\<lparr>from_r = ''counselor'', message_r = replyText, timestamp_r = now\<rparr>],
               counselorNotes := notes,
               status := (if status (messages ! i) = ''new'' \<or> status (messages ! i) = ''in-review''
                          then ''responded'' else status (messages ! i)) \<rparr>]
       \<and> handleStudentReply code text now messages =
           messages[k := (messages ! k)
             \<lparr> replies := replies (messages ! k) @
                 [\<lparr>from_r = ''student'', message_r = trim text, timestamp_r = now\<rparr>],
               status := ''responded'' \<rparr>]"
proof -
  from assms(1-3) have "findIndex (\<lambda>m. id_m m = messageId) messages = Some i"
    by (simp add: findIndex_Some_iff)
  then have c: "handleReplySubmit messageId replyText notes now messages =
           messages[i := (messages ! i)
             \<lparr> replies := replies (messages ! i) @
                 [\<lparr>from_r = ''counselor'', message_r = replyText, timestamp_r = now\<rparr>],
               counselorNotes := notes,
               status := (if status (messages ! i) = ''new'' \<or> status (messages ! i) = ''in-review''
                          then ''responded'' else status (messages ! i)) \<rparr>]"
    by (simp add: handleReplySubmit_def Let_def)
  from assms(4-6) have "findIndex (\<lambda>m. trackingCode m = code) messages = Some k"
    by (simp add: findIndex_Some_iff)
  with assms(7) have "handleStudentReply code text now messages =
           messages[k := (messages ! k)
             \<lparr> replies := replies (messages ! k) @
                 [\<lparr>from_r = ''student'', message_r = trim text, timestamp_r = now\<rparr>],
               status := ''responded'' \<rparr>]"
    by (simp add: handleStudentReply_def Let_def)
  with c show ?thesis by blast
qed

theorem reply_appends_and_sets_status_witness:
  "(0 < length [sampleMessage] \<and> id_m ([sampleMessage] ! 0) = ''1700000000000''
      \<and> trackingCode ([sampleMessage] ! 0) = ''ABCDEFGH'' \<and> trim '' gracias '' \<noteq> [])
   \<and> status sampleMessage = ''resolved''
   \<and> map status (handleReplySubmit ''1700000000000'' ''hola'' ''nota'' ''t1'' [sampleMessage])
       = [''resolved'']
   \<and> map replies (handleReplySubmit ''1700000000000'' ''hola'' ''nota'' ''t1'' [sampleMessage])
       = [[\<lparr>from_r = ''counselor'', message_r = ''hola'', timestamp_r = ''t1''\<rparr>]]
   \<and> map status (handleStudentReply ''ABCDEFGH'' '' gracias '' ''t1'' [sampleMessage])
       = [''responded'']
   \<and> map replies (handleStudentReply ''ABCDEFGH'' '' gracias '' ''t1'' [sampleMessage])
       = [[\<lparr>from_r = ''student'', message_r = ''gracias'', timestamp_r = ''t1''\<rparr>]]"
proof -
  have h1: "0 < length [sampleMessage]" by simp
  have h2: "id_m ([sampleMessage] ! 0) = ''1700000000000''" by (simp add: sampleMessage_def)
  have h3: "\<forall>j<0. id_m ([sampleMessage] ! j) \<noteq> ''1700000000000''" by simp
  have h4: "trackingCode ([sampleMessage] ! 0) = ''ABCDEFGH''" by (simp add: sampleMessage_def)
  have h5: "\<forall>j<0. trackingCode ([sampleMessage] ! j) \<noteq> ''ABCDEFGH''" by simp
  have t: "trim '' gracias '' = ''gracias''" by (simp add: trim_def isWhiteSpace_def)
  then have h6: "trim '' gracias '' \<noteq> []" by simp
  show ?thesis
    using h1 h2 h4 h6
      reply_appends_and_sets_status [OF h1 h2 h3 h1 h4 h5 h6, of "''hola''" "''nota''" "''t1''"]
    by (simp add: t sampleMessage_def)
qed

section \<open>Properties of the lookup\<close>

lemma of_char_less_256: "(of_char c :: nat) < 256"
proof -
  have "(of_char c :: nat) mod 256 = of_char c" by (rule of_char_mod_256)
  moreover have "(of_char c :: nat) mod 256 < 256" by simp
  ultimately show ?thesis by simp
qed

lemma upperChar_lowerChar: "upperChar (lowerChar c) = upperChar c"
proof -
  define n where "n = (of_char c :: nat)"
  have n: "n < 256" unfolding n_def by (rule of_char_less_256)
  show ?thesis
  proof (cases "(65 \<le> n \<and> n \<le> 90) \<or> (192 \<le> n \<and> n \<le> 222 \<and> n \<noteq> 215)")
    case True
    have l: "lowerChar c = char_of (n + 32)"
      unfolding lowerChar_def Let_def n_def[symmetric] using True by (rule if_P)
    from True have "n + 32 < 256" by auto
    then have m: "(of_char (char_of (n + 32) :: char) :: nat) = n + 32" by simp
    from True show ?thesis unfolding l upperChar_def m Let_def n_def[symmetric]
      by auto
  next
    case False
    have "lowerChar c = c"
      unfolding lowerChar_def Let_def n_def[symmetric] using False by (rule if_not_P)
    then show ?thesis by simp
  qed
qed

lemma toUpperCase_toLowerCase: "toUpperCase (toLowerCase s) = toUpperCase s"
  by (simp add: toUpperCase_def toLowerCase_def comp_def upperChar_lowerChar)

text \<open>
  Claim C10. For every query and every stored array, \<open>getMessageByCode\<close> returns a value
  (the model has no failing branch): nothing when no stored tracking code equals the
  query once both are put in upper case, and otherwise the first message whose code does.
  The comparison ignores the case of the letters: the query in lower case finds the same
  message.
\<close>

theorem getMessageByCode_found_or_absent:
  "(getMessageByCode code messages = None \<longleftrightarrow>
      (\<forall>m\<in>set messages. toUpperCase (trackingCode m) \<noteq> toUpperCase code))
   \<and> (\<forall>m. getMessageByCode code messages = Some m \<longleftrightarrow>
        (\<exists>i<length messages. messages ! i = m
           \<and> toUpperCase (trackingCode m) = toUpperCase code
           \<and> (\<forall>j<i. toUpperCase (trackingCode (messages ! j)) \<noteq> toUpperCase code)))
   \<and> getMessageByCode (toLowerCase code) messages = getMessageByCode code messages"
  by (auto simp: getMessageByCode_def find_None_iff find_Some_iff toUpperCase_toLowerCase)

theorem getMessageByCode_found_or_absent_witness:
  "getMessageByCode ''abcdefgh'' [sampleMessage] = Some sampleMessage
   \<and> toUpperCase (trackingCode sampleMessage) = toUpperCase ''abcdefgh''
   \<and> getMessageByCode ''ABCDEFG'' [sampleMessage] = None"
proof -
  have u: "toUpperCase (trackingCode sampleMessage) = toUpperCase ''abcdefgh''"
    by (simp add: sampleMessage_def toUpperCase_def upperChar_def)
  have n: "toUpperCase (trackingCode sampleMessage) \<noteq> toUpperCase ''ABCDEFG''"
    by (simp add: sampleMessage_def toUpperCase_def upperChar_def)
  show ?thesis
    using u n
      getMessageByCode_found_or_absent [of "''abcdefgh''" "[sampleMessage]"]
      getMessageByCode_found_or_absent [of "''ABCDEFG''" "[sampleMessage]"]
    by simp
qed

end
